theory Spec2Isabelle
  imports Main "HOL-Library.Sublist"
begin

section \<open>Python strings\<close>

text \<open>
  A Python \<open>str\<close> is a sequence of Unicode code points. It is modelled as a list of
  natural numbers (the code points), so that the character classes of \<open>str.splitlines\<close>
  and \<open>str.strip\<close> are the ones CPython uses, also beyond Latin-1. \<open>lit\<close> turns a literal
  of the source into its code points.
\<close>

type_synonym str = "nat list"

definition lit :: "string \<Rightarrow> str" where
  "lit s = map of_char s"

text \<open>
  The line boundaries of \<open>str.splitlines()\<close>: LF, VT, FF, CR, FS, GS, RS, NEL, LINE
  SEPARATOR and PARAGRAPH SEPARATOR; CR followed by LF is one boundary.
\<close>

definition is_linebreak :: "nat \<Rightarrow> bool" where
  "is_linebreak c = (c \<in> {0x0A, 0x0B, 0x0C, 0x0D, 0x1C, 0x1D, 0x1E, 0x85, 0x2028, 0x2029})"

text \<open>The characters for which \<open>str.isspace()\<close> holds; \<open>str.strip()\<close> removes them.\<close>

definition isspace :: "nat \<Rightarrow> bool" where
  "isspace c = ((0x09 \<le> c \<and> c \<le> 0x0D) \<or> (0x1C \<le> c \<and> c \<le> 0x20) \<or> c = 0x85 \<or> c = 0xA0
     \<or> c = 0x1680 \<or> (0x2000 \<le> c \<and> c \<le> 0x200A) \<or> c = 0x2028 \<or> c = 0x2029
     \<or> c = 0x202F \<or> c = 0x205F \<or> c = 0x3000)"

text \<open>
  \<open>text.splitlines()\<close>: the lines without their boundaries; a boundary at the very end
  opens no further line, and the empty text has no line.
\<close>

fun splitlines :: "str \<Rightarrow> str list" where
  "splitlines [] = []"
| "splitlines (c # cs) =
     (if c = 0x0D then
        (case cs of
           [] \<Rightarrow> [[]]
         | d # ds \<Rightarrow> if d = 0x0A then [] # splitlines ds else [] # splitlines cs)
      else if is_linebreak c then [] # splitlines cs
      else (case splitlines cs of [] \<Rightarrow> [[c]] | l # ls \<Rightarrow> (c # l) # ls))"

text \<open>\<open>s.strip()\<close>: leading and trailing whitespace removed.\<close>

definition strip :: "str \<Rightarrow> str" where
  "strip s = rev (dropWhile isspace (rev (dropWhile isspace s)))"

text \<open>
  \<open>s.split(sep)\<close> for a separator that is not empty: the pieces between the occurrences of
  \<open>sep\<close>, found from left to right without overlap. (Python raises \<open>ValueError\<close> on an
  empty separator; the source only splits on the literal of two spaces.)
\<close>

function str_split :: "str \<Rightarrow> str \<Rightarrow> str list" where
  "str_split sep [] = [[]]"
| "str_split sep (c # cs) =
     (if sep \<noteq> [] \<and> take (length sep) (c # cs) = sep
      then [] # str_split sep (drop (length sep) (c # cs))
      else (case str_split sep cs of [] \<Rightarrow> [[c]] | p # ps \<Rightarrow> (c # p) # ps))"
  by pat_completeness auto
termination
  by (relation "measure (\<lambda>(sep, s). length s)") (auto simp: neq_Nil_conv)

text \<open>\<open>sep.join(xs)\<close>.\<close>

fun join :: "str \<Rightarrow> str list \<Rightarrow> str" where
  "join sep [] = []"
| "join sep [x] = x"
| "join sep (x # y # ys) = x @ sep @ join sep (y # ys)"

text \<open>\<open>str(i)\<close> for an index \<open>i\<close> of \<open>enumerate\<close>: its decimal digits.\<close>

fun str_nat :: "nat \<Rightarrow> str" where
  "str_nat n = (if n < 10 then [48 + n] else str_nat (n div 10) @ [48 + n mod 10])"

text \<open>\<open>os.path.basename(p)\<close> on POSIX: what follows the last slash.\<close>

definition basename :: "str \<Rightarrow> str" where
  "basename p = rev (takeWhile (\<lambda>c. c \<noteq> 0x2F) (rev p))"

section \<open>Text extraction (worker, \<open>ingest.py\<close>)\<close>

text \<open>
  The whitespace clean-up that \<open>fetch_and_clean_text\<close> and \<open>fetch_and_clean_file\<close> both
  end with:
  \<^verbatim>\<open>
  lines = (line.strip() for line in text.splitlines())
  chunks = (phrase.strip() for line in lines for phrase in line.split("  "))
  cleaned_text = '\n'.join(chunk for chunk in chunks if chunk)
  \<close>
\<close>

definition clean_whitespace :: "str \<Rightarrow> str" where
  "clean_whitespace text =
     (let lines = map strip (splitlines text);
          chunks = map strip (concat (map (str_split (lit ''  '')) lines))
      in join [0x0A] (filter (\<lambda>chunk. chunk \<noteq> []) chunks))"

text \<open>The fragments that \<open>clean_whitespace\<close> joins (a name for the proofs).\<close>

definition fragments :: "str \<Rightarrow> str list" where
  "fragments text =
     filter (\<lambda>chunk. chunk \<noteq> [])
       (map strip (concat (map (str_split (lit ''  '')) (map strip (splitlines text)))))"

section \<open>Exceptions\<close>

text \<open>
  What the source raises itself (\<open>ValueError\<close>, FastAPI's \<open>HTTPException\<close> with its status
  code and detail) and, as \<open>LibraryError\<close> with its message, any exception that comes out
  of a collaborator (httpx, PyPDF2, python-docx, the text splitter, ChromaDB, Celery,
  Groq).
\<close>

datatype exn = ValueError str | LibraryError str | HTTPException nat str

text \<open>
  \<open>str(e)\<close>, as the handlers interpolate it: the message of an exception; for an
  \<open>HTTPException\<close>, Starlette renders the status code, a colon and the detail.
\<close>

fun exn_str :: "exn \<Rightarrow> str" where
  "exn_str (ValueError m) = m"
| "exn_str (LibraryError m) = m"
| "exn_str (HTTPException code detail) = str_nat code @ lit '': '' @ detail"

section \<open>The job table, the vector collection, the task queue\<close>

text \<open>
  A row of \<open>IngestionJob\<close>, with the columns the source reads and writes: the primary key
  \<open>id\<close> (here \<open>job_id\<close>), \<open>url\<close> (the source key: a URL, or the name of an uploaded
  file) and \<open>status\<close>, a string.
\<close>

record job =
  job_id :: str
  url :: str
  status :: str

text \<open>A record of the ChromaDB collection: id, document and metadata (a dict).\<close>

record entry =
  entry_id :: str
  document :: str
  metadata :: "(str \<times> str) list"

text \<open>A task handed to Celery with \<open>send_task\<close>: its name and arguments.\<close>

datatype task =
  ProcessUrlTask str str
| ProcessFileTask str str str

text \<open>
  The shared state: the rows of the job table, in insertion order; the status values
  committed so far, each with the id of its row (oldest first); the records of the
  collection; the tasks sent to the broker; the temporary files the API has written,
  each with its path and content.
\<close>

record system =
  jobs :: "job list"
  written :: "(str \<times> str) list"
  collection :: "entry list"
  queue :: "task list"
  tmp_files :: "(str \<times> str) list"

text \<open>
  ChromaDB's \<open>Collection.add\<close> never replaces a stored record (that is
  \<open>Collection.upsert\<close>, which the source does not call). What it does with an id that is
  already stored depends on the release: the record is skipped, or the call raises.
\<close>

datatype add_existing = KeepExisting | RaiseDuplicate

text \<open>
  The collaborators, as the functions the source calls:
  \<^item> \<open>http_get_text url\<close>: \<open>httpx.get\<close>, \<open>raise_for_status\<close>, and BeautifulSoup's
    \<open>get_text\<close> after the script and style elements are removed;
  \<^item> \<open>pdf_page_texts path\<close>: \<open>page.extract_text()\<close> of every page of the PDF, \<open>None\<close> for
    a page without text;
  \<^item> \<open>docx_paragraphs path\<close>: the text of every paragraph of the DOCX;
  \<^item> \<open>split_text\<close>: \<open>RecursiveCharacterTextSplitter(chunk_size=1000, chunk_overlap=200,
    length_function=len).split_text\<close>;
  \<^item> \<open>chroma_fault\<close>: the exception of a \<open>collection.add\<close> that cannot reach the server,
    and \<open>on_existing\<close>: what \<open>add\<close> does with a stored id;
  \<^item> \<open>nearest text\<close>: the stored records ordered by similarity to \<open>text\<close>, best first;
  \<^item> \<open>broker_fault\<close>: the exception of a \<open>send_task\<close> that cannot reach the broker;
  \<^item> \<open>enrich_completion\<close>, \<open>answer_completion\<close>: the content of the first choice of the
    two Groq chat completions, for a prompt.
\<close>

record env =
  http_get_text :: "str \<Rightarrow> exn + str"
  pdf_page_texts :: "str \<Rightarrow> exn + str option list"
  docx_paragraphs :: "str \<Rightarrow> exn + str list"
  split_text :: "str \<Rightarrow> exn + str list"
  chroma_fault :: "exn option"
  on_existing :: add_existing
  nearest :: "str \<Rightarrow> entry list \<Rightarrow> entry list"
  broker_fault :: "exn option"
  enrich_completion :: "str \<Rightarrow> exn + str"
  answer_completion :: "str \<Rightarrow> exn + str"

text \<open>\<open>db.query(IngestionJob).filter(IngestionJob.id == job_id).first()\<close>\<close>

definition job_by_id :: "str \<Rightarrow> job list \<Rightarrow> job option" where
  "job_by_id jid rows = find (\<lambda>j. job_id j = jid) rows"

text \<open>\<open>db.query(IngestionJob).filter(IngestionJob.url == key).first()\<close>\<close>

definition job_by_url :: "str \<Rightarrow> job list \<Rightarrow> job option" where
  "job_by_url key rows = find (\<lambda>j. url j = key) rows"

text \<open>\<open>job.status = st; db.commit()\<close> for the row loaded by its id.\<close>

fun set_status :: "str \<Rightarrow> str \<Rightarrow> job list \<Rightarrow> job list" where
  "set_status jid st [] = []"
| "set_status jid st (j # js) =
     (if job_id j = jid then j\<lparr>status := st\<rparr> # js else j # set_status jid st js)"

definition commit_status :: "str \<Rightarrow> str \<Rightarrow> system \<Rightarrow> system" where
  "commit_status jid st s =
     s\<lparr>jobs := set_status jid st (jobs s), written := written s @ [(jid, st)]\<rparr>"

text \<open>
  \<open>db.add(new_job); db.commit(); db.refresh(new_job)\<close> for
  \<open>IngestionJob(url=key, status="PENDING")\<close>; \<open>new_id\<close> is the primary key the database
  gives the row.
\<close>

definition insert_job :: "str \<Rightarrow> str \<Rightarrow> system \<Rightarrow> system" where
  "insert_job new_id key s =
     s\<lparr>jobs := jobs s @ [\<lparr>job_id = new_id, url = key, status = lit ''PENDING''\<rparr>],
       written := written s @ [(new_id, lit ''PENDING'')]\<rparr>"

text \<open>\<open>collection.add(ids=ids, documents=documents, metadatas=metadatas)\<close>\<close>

definition collection_add ::
  "env \<Rightarrow> str list \<Rightarrow> str list \<Rightarrow> (str \<times> str) list list \<Rightarrow> entry list \<Rightarrow> exn + entry list" where
  "collection_add env ids documents metadatas coll =
     (case chroma_fault env of
        Some e \<Rightarrow> Inl e
      | None \<Rightarrow>
          (let records =
                 map (\<lambda>(i, d, m). \<lparr>entry_id = i, document = d, metadata = m\<rparr>)
                   (zip ids (zip documents metadatas));
               known = map entry_id coll
           in case on_existing env of
                RaiseDuplicate \<Rightarrow>
                  if list_ex (\<lambda>i. i \<in> set known) ids
                  then Inl (LibraryError (lit ''IDAlreadyExistsError''))
                  else Inr (coll @ records)
              | KeepExisting \<Rightarrow> Inr (coll @ filter (\<lambda>r. entry_id r \<notin> set known) records)))"

text \<open>\<open>collection.query(query_texts=[text], n_results=n)\<close>: the \<open>n\<close> nearest records.\<close>

definition collection_query :: "env \<Rightarrow> str \<Rightarrow> nat \<Rightarrow> entry list \<Rightarrow> entry list" where
  "collection_query env text n coll = take n (nearest env text coll)"

section \<open>The worker: \<open>ingest.py\<close>\<close>

text \<open>
  \<open>fetch_and_clean_text(url)\<close>: fetch, parse, clean up the whitespace; both \<open>except\<close>
  clauses print and raise the exception again.
\<close>

definition fetch_and_clean_text :: "env \<Rightarrow> str \<Rightarrow> exn + str" where
  "fetch_and_clean_text env u =
     (case http_get_text env u of
        Inl e \<Rightarrow> Inl e
      | Inr text \<Rightarrow> Inr (clean_whitespace text))"

text \<open>\<open>chunk_text(text)\<close>: the call of the text splitter.\<close>

definition chunk_text :: "env \<Rightarrow> str \<Rightarrow> exn + str list" where
  "chunk_text env text = split_text env text"

text \<open>The ids \<open>[f"{url}_{i}" for i, _ in enumerate(chunks)]\<close>.\<close>

definition chunk_ids :: "str \<Rightarrow> str list \<Rightarrow> str list" where
  "chunk_ids key chunks = map (\<lambda>i. key @ lit ''_'' @ str_nat i) [0..<length chunks]"

text \<open>
  \<open>store_chunks_in_db(url, chunks)\<close>: nothing for no chunks; else one \<open>collection.add\<close>
  with the metadata \<open>{"source_url": url}\<close> for every chunk.
\<close>

definition store_chunks_in_db :: "env \<Rightarrow> str \<Rightarrow> str list \<Rightarrow> entry list \<Rightarrow> exn + entry list" where
  "store_chunks_in_db env u chunks coll =
     (if chunks = [] then Inr coll
      else collection_add env (chunk_ids u chunks) chunks
             (map (\<lambda>_. [(lit ''source_url'', u)]) chunks) coll)"

text \<open>\<open>extract_text_from_pdf\<close>: \<open>text += page.extract_text() or ""\<close> over the pages.\<close>

definition extract_text_from_pdf :: "env \<Rightarrow> str \<Rightarrow> exn + str" where
  "extract_text_from_pdf env filepath =
     (case pdf_page_texts env filepath of
        Inl e \<Rightarrow> Inl e
      | Inr pages \<Rightarrow> Inr (concat (map (\<lambda>page. case page of None \<Rightarrow> [] | Some t \<Rightarrow> t) pages)))"

text \<open>\<open>extract_text_from_docx\<close>: the paragraphs joined by newlines.\<close>

definition extract_text_from_docx :: "env \<Rightarrow> str \<Rightarrow> exn + str" where
  "extract_text_from_docx env filepath =
     (case docx_paragraphs env filepath of
        Inl e \<Rightarrow> Inl e
      | Inr paras \<Rightarrow> Inr (join [0x0A] paras))"

text \<open>
  \<open>fetch_and_clean_file(file_path, content_type)\<close>: the extractor by content type,
  \<open>ValueError\<close> for any other type, then the same clean-up as for a web page.
\<close>

definition fetch_and_clean_file :: "env \<Rightarrow> str \<Rightarrow> str \<Rightarrow> exn + str" where
  "fetch_and_clean_file env file_path content_type =
     (case (if content_type = lit ''application/pdf'' then extract_text_from_pdf env file_path
            else if content_type =
                lit ''application/vnd.openxmlformats-officedocument.wordprocessingml.document''
            then extract_text_from_docx env file_path
            else Inl (ValueError (lit ''Unsupported document type.''))) of
        Inl e \<Rightarrow> Inl e
      | Inr text \<Rightarrow> Inr (clean_whitespace text))"

text \<open>
  \<open>store_file_chunks_in_db(filename, chunks)\<close>: as \<open>store_chunks_in_db\<close>, with the metadata
  \<open>{"source_file": filename}\<close>.
\<close>

definition store_file_chunks_in_db :: "env \<Rightarrow> str \<Rightarrow> str list \<Rightarrow> entry list \<Rightarrow> exn + entry list" where
  "store_file_chunks_in_db env filename chunks coll =
     (if chunks = [] then Inr coll
      else collection_add env (chunk_ids filename chunks) chunks
             (map (\<lambda>_. [(lit ''source_file'', filename)]) chunks) coll)"

section \<open>The worker: \<open>tasks.py\<close>\<close>

text \<open>
  The steps of \<open>process_url_task\<close> between the commit of \<open>PROCESSING\<close> and the commit of
  \<open>COMPLETED\<close>: fetch and clean, \<open>ValueError\<close> on no text, chunk, store. The result is
  the collection after the store, or the exception that ends the \<open>try\<close> block.
\<close>

definition url_steps :: "env \<Rightarrow> str \<Rightarrow> entry list \<Rightarrow> exn + entry list" where
  "url_steps env u coll =
     (case fetch_and_clean_text env u of
        Inl e \<Rightarrow> Inl e
      | Inr text \<Rightarrow>
          if text = [] then Inl (ValueError (lit ''Failed to get any text content from URL.''))
          else (case chunk_text env text of
                  Inl e \<Rightarrow> Inl e
                | Inr chunks \<Rightarrow> store_chunks_in_db env u chunks coll))"

text \<open>
  \<open>process_url_task(job_id, url)\<close>. A task returns a value (\<open>None\<close>, or the dict with
  the job id and the status) or raises. No row: return. Else commit \<open>PROCESSING\<close>, run
  the steps, commit \<open>COMPLETED\<close> and return the dict. The handler rolls back (nothing is
  uncommitted at that point), loads the row again, commits \<open>FAILED\<close> if it is there, and
  raises the exception again.
\<close>

definition process_url_task :: "env \<Rightarrow> str \<Rightarrow> str \<Rightarrow> system \<Rightarrow> (exn + (str \<times> str) option) \<times> system" where
  "process_url_task env jid u s =
     (case job_by_id jid (jobs s) of
        None \<Rightarrow> (Inr None, s)
      | Some job \<Rightarrow>
          (let s1 = commit_status jid (lit ''PROCESSING'') s in
           case url_steps env u (collection s1) of
             Inr coll \<Rightarrow>
               (Inr (Some (jid, lit ''COMPLETED'')),
                commit_status jid (lit ''COMPLETED'') (s1\<lparr>collection := coll\<rparr>))
           | Inl e \<Rightarrow>
               (case job_by_id jid (jobs s1) of
                  Some job' \<Rightarrow> (Inl e, commit_status jid (lit ''FAILED'') s1)
                | None \<Rightarrow> (Inl e, s1))))"

text \<open>
  The steps of \<open>process_file_task\<close> between its two commits: extract and clean, chunk,
  store under \<open>job.url\<close>. The text is not tested for being empty.
\<close>

definition file_steps :: "env \<Rightarrow> str \<Rightarrow> str \<Rightarrow> str \<Rightarrow> entry list \<Rightarrow> exn + entry list" where
  "file_steps env file_path content_type filename coll =
     (case fetch_and_clean_file env file_path content_type of
        Inl e \<Rightarrow> Inl e
      | Inr text \<Rightarrow>
          (case chunk_text env text of
             Inl e \<Rightarrow> Inl e
           | Inr chunks \<Rightarrow> store_file_chunks_in_db env filename chunks coll))"

text \<open>
  \<open>process_file_task(job_id, file_path, content_type)\<close>. No row: return. Else commit
  the status \<open>"RUNNING"\<close>, run the steps, commit \<open>COMPLETED\<close>. The handler commits \<open>FAILED\<close>
  on the row it holds and prints the exception; it does not raise, so the task returns
  \<open>None\<close> on every path.
\<close>

definition process_file_task :: "env \<Rightarrow> str \<Rightarrow> str \<Rightarrow> str \<Rightarrow> system \<Rightarrow> (exn + (str \<times> str) option) \<times> system" where
  "process_file_task env jid file_path content_type s =
     (case job_by_id jid (jobs s) of
        None \<Rightarrow> (Inr None, s)
      | Some job \<Rightarrow>
          (let s1 = commit_status jid (lit ''RUNNING'') s in
           case file_steps env file_path content_type (url job) (collection s1) of
             Inr coll \<Rightarrow> (Inr None, commit_status jid (lit ''COMPLETED'') (s1\<lparr>collection := coll\<rparr>))
           | Inl e \<Rightarrow> (Inr None, commit_status jid (lit ''FAILED'') s1)))"

text \<open>The worker runs a task of the queue by its name.\<close>

fun run_task :: "env \<Rightarrow> task \<Rightarrow> system \<Rightarrow> (exn + (str \<times> str) option) \<times> system" where
  "run_task env (ProcessUrlTask jid u) s = process_url_task env jid u s"
| "run_task env (ProcessFileTask jid file_path content_type) s =
     process_file_task env jid file_path content_type s"

section \<open>The API: \<open>main.py\<close>\<close>

text \<open>What an ingestion endpoint returns: \<open>IngestResponse(job_id=...)\<close>, or the dict of
  \<open>ingest_file\<close> with the job id, the status and the message.\<close>

datatype response =
  IngestResponse str
| FileAccepted str str str

text \<open>\<open>celery_app.send_task(name, args=[...])\<close>: an exception of the broker, or the task
  is in the queue.\<close>

definition send_task :: "env \<Rightarrow> task \<Rightarrow> system \<Rightarrow> exn + system" where
  "send_task env t s =
     (case broker_fault env of
        Some e \<Rightarrow> Inl e
      | None \<Rightarrow> Inr (s\<lparr>queue := queue s @ [t]\<rparr>))"

text \<open>
  The \<open>try\<close> block of \<open>ingest_url\<close>: a row with this URL raises the 409
  \<open>HTTPException\<close> that names its id and status; else the row is inserted as \<open>PENDING\<close>
  and committed, and the task is sent. The state is returned with the exception, since
  the committed row stays when \<open>send_task\<close> raises.
\<close>

definition ingest_url_try :: "env \<Rightarrow> str \<Rightarrow> str \<Rightarrow> system \<Rightarrow> (exn + response) \<times> system" where
  "ingest_url_try env request_url new_id s =
     (case job_by_url request_url (jobs s) of
        Some existing_job \<Rightarrow>
          (Inl (HTTPException 409
             (lit ''URL has already been submitted. Job ID: '' @ job_id existing_job
              @ lit '', Status: '' @ status existing_job)), s)
      | None \<Rightarrow>
          (let s1 = insert_job new_id request_url s in
           case send_task env (ProcessUrlTask new_id request_url) s1 of
             Inl e \<Rightarrow> (Inl e, s1)
           | Inr s2 \<Rightarrow> (Inr (IngestResponse new_id), s2)))"

text \<open>
  \<open>ingest_url\<close> with its handlers: an \<open>HTTPException\<close> is raised again as it is, any other
  exception becomes the 500 \<open>HTTPException\<close>. (\<open>db.rollback()\<close> finds nothing
  uncommitted.)
\<close>

definition ingest_url :: "env \<Rightarrow> str \<Rightarrow> str \<Rightarrow> system \<Rightarrow> (exn + response) \<times> system" where
  "ingest_url env request_url new_id s =
     (case ingest_url_try env request_url new_id s of
        (Inr r, s') \<Rightarrow> (Inr r, s')
      | (Inl (HTTPException code detail), s') \<Rightarrow> (Inl (HTTPException code detail), s')
      | (Inl e, s') \<Rightarrow>
          (Inl (HTTPException 500 (lit ''Failed to create and schedule job: '' @ exn_str e)), s'))"

text \<open>
  The \<open>try\<close> block of \<open>ingest_file\<close>. The upload (\<open>content\<close>) is copied to a
  \<open>NamedTemporaryFile(delete=False)\<close>, whose name is \<open>tmp_filepath\<close>; the source key is
  the basename of that name. The content is not read again.
\<close>

definition ingest_file_try ::
  "env \<Rightarrow> str \<Rightarrow> str \<Rightarrow> str \<Rightarrow> str \<Rightarrow> system \<Rightarrow> (exn + response) \<times> system" where
  "ingest_file_try env content_type content tmp_filepath new_id s =
     (let s0 = s\<lparr>tmp_files := tmp_files s @ [(tmp_filepath, content)]\<rparr>;
          job_filename = basename tmp_filepath
      in case job_by_url job_filename (jobs s0) of
        Some existing_job \<Rightarrow>
          (Inl (HTTPException 409
             (lit ''File has already been submitted. Job ID: '' @ job_id existing_job
              @ lit '', Status: '' @ status existing_job)), s0)
      | None \<Rightarrow>
          (let s1 = insert_job new_id job_filename s0 in
           case send_task env (ProcessFileTask new_id tmp_filepath content_type) s1 of
             Inl e \<Rightarrow> (Inl e, s1)
           | Inr s2 \<Rightarrow>
               (Inr (FileAccepted new_id (lit ''PENDING'')
                  (lit ''File has been accepted and is pending processing.'')), s2)))"

text \<open>
  \<open>ingest_file\<close>: the 400 for a content type that is neither PDF nor DOCX, before the
  \<open>try\<close>; then the block, whose single handler \<open>except Exception\<close> turns every
  exception into the 500 \<open>HTTPException\<close>, the 409 of the block included.
\<close>

definition ingest_file ::
  "env \<Rightarrow> str \<Rightarrow> str \<Rightarrow> str \<Rightarrow> str \<Rightarrow> system \<Rightarrow> (exn + response) \<times> system" where
  "ingest_file env content_type content tmp_filepath new_id s =
     (if content_type \<noteq> lit ''application/pdf'' \<and>
         content_type \<noteq> lit ''application/vnd.openxmlformats-officedocument.wordprocessingml.document''
      then (Inl (HTTPException 400 (lit ''Only PDF and DOCX files are supported.'')), s)
      else
        (case ingest_file_try env content_type content tmp_filepath new_id s of
           (Inr r, s') \<Rightarrow> (Inr r, s')
         | (Inl e, s') \<Rightarrow>
             (Inl (HTTPException 500
                (lit ''Failed to create and schedule file ingest job: '' @ exn_str e)), s')))"



section \<open>The query pipeline: \<open>query.py\<close>\<close>

text \<open>The dict that \<open>query_rag_engine\<close> returns.\<close>

record query_result =
  answer :: str
  sources :: "str list"
  enriched_query :: str

text \<open>The two chat completions, each with the prompt it was called with.\<close>

datatype llm_call = EnrichCall str | AnswerCall str

definition enrich_prompt :: "str \<Rightarrow> str" where
  "enrich_prompt query_text =
     lit ''Please rephrase or enrich the following question to make it clearer and more specific for a customer assistant. ''
     @ lit ''Ensure the question is well-formed, focused, and easy for an AI to understand:'' @ [0x0A, 0x0A]
     @ lit ''Original Question: '' @ query_text @ [0x0A, 0x0A]
     @ lit ''Improved Question:''"

definition not_found :: str where
  "not_found = lit ''I could not find an answer in the ingested content.''"

definition answer_prompt :: "str \<Rightarrow> str \<Rightarrow> str" where
  "answer_prompt context improved_query_text =
     [0x0A] @ lit ''    You are a helpful assistant. Answer the user'' @ [0x27]
     @ lit ''s question based ONLY on the following context.'' @ [0x0A]
     @ lit ''    If the answer is not found in the context, say '' @ [0x22] @ not_found @ [0x22, 0x0A]
     @ lit ''    Do not use any prior knowledge.'' @ [0x0A, 0x0A]
     @ lit ''    Context:'' @ [0x0A] @ lit ''    ---'' @ [0x0A]
     @ lit ''    '' @ context @ [0x0A] @ lit ''    ---'' @ [0x0A, 0x0A]
     @ lit ''    Question: '' @ improved_query_text @ [0x0A, 0x0A]
     @ lit ''    Answer:'' @ [0x0A] @ lit ''    ''"

text \<open>\<open>meta.get('source_url', '')\<close>\<close>

definition get_source_url :: "(str \<times> str) list \<Rightarrow> str" where
  "get_source_url meta = (case map_of meta (lit ''source_url'') of None \<Rightarrow> [] | Some v \<Rightarrow> v)"

text \<open>
  Step 1 of \<open>query_rag_engine\<close>: the stripped content of the enrichment completion, or
  the raw query when the completion raises.
\<close>

definition improve_query :: "env \<Rightarrow> str \<Rightarrow> str" where
  "improve_query env query_text =
     (case enrich_completion env (enrich_prompt query_text) of
        Inr content \<Rightarrow> strip content
      | Inl e \<Rightarrow> query_text)"

text \<open>
  \<open>query_rag_engine(query_text)\<close>, with the chat completions it made. No retrieved chunk: the fixed answer, no
  sources, and no second completion. Else the answer of the second completion, whose
  exception is raised again, and the source URLs read from the metadata.
  \<open>list(set(...))\<close> keeps one of each value in an order Python does not fix; the model
  lists them with \<open>remdups\<close>, and only the set of \<open>sources\<close> is meaningful.
\<close>

definition query_rag_engine ::
  "env \<Rightarrow> str \<Rightarrow> entry list \<Rightarrow> (exn + query_result) \<times> llm_call list" where
  "query_rag_engine env query_text coll =
     (let improved_query_text = improve_query env query_text;
          enrich_call = EnrichCall (enrich_prompt query_text);
          results = collection_query env improved_query_text 3 coll;
          retrieved_chunks = map document results
      in if retrieved_chunks = [] then
           (Inr \<lparr>answer = not_found, sources = [], enriched_query = improved_query_text\<rparr>,
            [enrich_call])
         else
           (let context = join ([0x0A] @ lit ''---'' @ [0x0A]) retrieved_chunks;
                prompt = answer_prompt context improved_query_text
            in case answer_completion env prompt of
                 Inl e \<Rightarrow> (Inl e, [enrich_call, AnswerCall prompt])
               | Inr a \<Rightarrow>
                   (Inr \<lparr>answer = a,
                         sources = remdups (map (\<lambda>r. get_source_url (metadata r)) results),
                         enriched_query = improved_query_text\<rparr>,
                    [enrich_call, AnswerCall prompt])))"

text \<open>
  A file directly in the directory \<open>dir\<close>: its path is \<open>dir\<close>, a slash and a name without
  a slash. \<open>NamedTemporaryFile\<close> creates its file so in \<open>tempfile.gettempdir()\<close>, under a
  path at which no file existed.
\<close>

definition in_dir :: "str \<Rightarrow> str \<Rightarrow> bool" where
  "in_dir dir p = (take (length dir + 1) p = dir @ [0x2F] \<and> 0x2F \<notin> set (drop (length dir + 1) p))"

text \<open>
  The temporary files of the uploads are still in place: every recorded temporary file
  lies directly in \<open>dir\<close>, and every source key of the table is a URL (it holds a slash)
  or the basename of a recorded temporary file. The source never deletes a temporary
  file; the condition ends when something else empties the directory while the table is
  kept.
\<close>

definition temp_files_kept :: "str \<Rightarrow> system \<Rightarrow> bool" where
  "temp_files_kept dir s =
     (list_all (in_dir dir) (map fst (tmp_files s)) \<and>
      list_all (\<lambda>j. 0x2F \<in> set (url j) \<or> url j \<in> basename ` fst ` set (tmp_files s)) (jobs s))"

section \<open>Scenarios\<close>

text \<open>
  Concrete collaborators and states for the statements that run the code: a web page
  with the given text, a PDF with the given pages (or one that cannot be read), a
  splitter that returns a text that is not empty as one chunk and no chunk for the empty
  text, a reachable store and broker, the store's records in stored order as the nearest
  ones, an enrichment that times out and an answer completion that answers.
\<close>

definition demo_env :: "str \<Rightarrow> (exn + str option list) \<Rightarrow> add_existing \<Rightarrow> env" where
  "demo_env page pdf_pages pol =
     \<lparr>http_get_text = (\<lambda>u. Inr page),
      pdf_page_texts = (\<lambda>p. pdf_pages),
      docx_paragraphs = (\<lambda>p. Inr []),
      split_text = (\<lambda>t. Inr (if t = [] then [] else [t])),
      chroma_fault = None,
      on_existing = pol,
      nearest = (\<lambda>q coll. coll),
      broker_fault = None,
      enrich_completion = (\<lambda>p. Inl (LibraryError (lit ''timeout''))),
      answer_completion = (\<lambda>p. Inr (lit ''An answer.''))\<rparr>"

definition empty_system :: system where
  "empty_system = \<lparr>jobs = [], written = [], collection = [], queue = [], tmp_files = []\<rparr>"

definition pdf :: str where
  "pdf = lit ''application/pdf''"

definition docx :: str where
  "docx = lit ''application/vnd.openxmlformats-officedocument.wordprocessingml.document''"




definition upload_path :: str where
  "upload_path = lit ''/tmp/tmpab12cd34.pdf''"

definition page_url :: str where
  "page_url = lit ''https://example.com/a''"

text \<open>The state after one accepted upload of a PDF, and after one accepted URL.\<close>

definition uploaded :: "env \<Rightarrow> system" where
  "uploaded env = snd (ingest_file env pdf (lit ''%PDF'') upload_path (lit ''1'') empty_system)"

definition submitted :: "env \<Rightarrow> system" where
  "submitted env = snd (ingest_url env page_url (lit ''1'') empty_system)"

text \<open>The state after one accepted upload when the temporary directory has been
  emptied since (the job table outlives it).\<close>

definition after_restart :: "env \<Rightarrow> system" where
  "after_restart env = (uploaded env)\<lparr>tmp_files := []\<rparr>"

text \<open>A PDF of one page without extractable text; a PDF that cannot be read; a PDF
  with one page of text.\<close>

definition scanned_pdf :: env where
  "scanned_pdf = demo_env [] (Inr [None]) KeepExisting"

definition corrupt_pdf :: env where
  "corrupt_pdf = demo_env [] (Inl (LibraryError (lit ''PdfReadError''))) KeepExisting"

definition text_pdf :: env where
  "text_pdf = demo_env [] (Inr [Some (lit ''Hello  world'')]) KeepExisting"

section \<open>The whitespace clean-up is idempotent\<close>

text \<open>Lines of \<open>splitlines\<close> hold no line boundary, and joining such lines with
  newlines is undone by \<open>splitlines\<close>.\<close>

lemma splitlines_line_then_break:
  "list_all (\<lambda>c. \<not> is_linebreak c) f \<Longrightarrow> splitlines (f @ 0x0A # rest) = f # splitlines rest"
  by (induction f) (auto simp: is_linebreak_def)

lemma splitlines_single:
  "f \<noteq> [] \<Longrightarrow> list_all (\<lambda>c. \<not> is_linebreak c) f \<Longrightarrow> splitlines f = [f]"
proof (induction f)
  case Nil
  then show ?case by simp
next
  case (Cons c f)
  then show ?case by (cases f) (auto simp: is_linebreak_def)
qed

lemma splitlines_no_break: "l \<in> set (splitlines s) \<Longrightarrow> list_all (\<lambda>c. \<not> is_linebreak c) l"
proof (induction s arbitrary: l rule: splitlines.induct)
  case 1
  then show ?case by simp
next
  case (2 c cs)
  note mem = "2.prems"
  show ?case
  proof (cases "c = 0x0D")
    case True
    show ?thesis
    proof (cases cs)
      case Nil
      with True mem show ?thesis by simp
    next
      case (Cons d ds)
      show ?thesis
      proof (cases "d = 0x0A")
        case dLF: True
        with True Cons mem have "l = [] \<or> l \<in> set (splitlines ds)" by simp
        with "2.IH"(1)[OF True Cons dLF] show ?thesis by auto
      next
        case dn: False
        with True Cons mem have "l = [] \<or> l \<in> set (splitlines cs)" by simp
        with "2.IH"(2)[OF True Cons dn] show ?thesis by auto
      qed
    qed
  next
    case False
    show ?thesis
    proof (cases "is_linebreak c")
      case True
      with False mem have "l = [] \<or> l \<in> set (splitlines cs)" by simp
      with "2.IH"(3)[OF False True] show ?thesis by auto
    next
      case nb: False
      show ?thesis
      proof (cases "splitlines cs")
        case Nil
        with False nb mem show ?thesis by simp
      next
        case (Cons l0 ls)
        with False nb mem have "l = c # l0 \<or> l \<in> set ls" by simp
        moreover have "list_all (\<lambda>c. \<not> is_linebreak c) l0"
          using "2.IH"(4)[OF False nb, of l0] Cons by simp
        moreover have "\<And>x. x \<in> set ls \<Longrightarrow> list_all (\<lambda>c. \<not> is_linebreak c) x"
          using "2.IH"(4)[OF False nb] Cons by simp
        ultimately show ?thesis using nb by auto
      qed
    qed
  qed
qed

lemma splitlines_join:
  "list_all (\<lambda>f. f \<noteq> [] \<and> list_all (\<lambda>c. \<not> is_linebreak c) f) fs
   \<Longrightarrow> splitlines (join [0x0A] fs) = fs"
proof (induction fs)
  case Nil
  then show ?case by simp
next
  case (Cons f fs)
  show ?case
  proof (cases fs)
    case Nil
    with Cons.prems show ?thesis by (simp add: splitlines_single)
  next
    case (Cons g gs)
    with Cons.prems Cons.IH show ?thesis by (simp add: splitlines_line_then_break)
  qed
qed

text \<open>Pieces of \<open>str_split\<close> hold no occurrence of the separator, and \<open>strip\<close> keeps
  a contiguous part of its argument.\<close>

lemma str_split_not_Nil: "str_split sep s \<noteq> []"
  by (induction sep s rule: str_split.induct) (auto split: list.splits)

lemma str_split_hd_prefix: "prefix (hd (str_split sep s)) s"
  by (induction sep s rule: str_split.induct) (auto split: list.splits)

lemma sublist_sep_Cons:
  assumes "sublist sep (c # p)" "\<not> sublist sep p" "prefix p cs"
  shows "take (length sep) (c # cs) = sep"
proof -
  from assms(1,2) have "prefix sep (c # p)" by (simp add: sublist_Cons_right)
  moreover from assms(3) have "prefix (c # p) (c # cs)" by simp
  ultimately have "prefix sep (c # cs)" by (rule prefix_order.trans)
  then show ?thesis by (auto simp: prefix_def)
qed

lemma str_split_piece_no_sep:
  "sep \<noteq> [] \<Longrightarrow> p \<in> set (str_split sep s) \<Longrightarrow> \<not> sublist sep p"
proof (induction sep s arbitrary: p rule: str_split.induct)
  case (1 sep)
  then show ?case by simp
next
  case (2 sep c cs)
  show ?case
  proof (cases "sep \<noteq> [] \<and> take (length sep) (c # cs) = sep")
    case True
    with "2.prems" have "p = [] \<or> p \<in> set (str_split sep (drop (length sep) (c # cs)))" by simp
    with "2.IH"(1)[OF True "2.prems"(1)] "2.prems"(1) show ?thesis by auto
  next
    case False
    obtain q qs where q: "str_split sep cs = q # qs"
      using str_split_not_Nil[of sep cs] by (cases "str_split sep cs") auto
    with False "2.prems" have "p = c # q \<or> p \<in> set qs" by simp
    moreover have nq: "\<not> sublist sep q" and "\<And>x. x \<in> set qs \<Longrightarrow> \<not> sublist sep x"
      using "2.IH"(2)[OF False "2.prems"(1)] q by simp_all
    moreover have "prefix q cs" using str_split_hd_prefix[of sep cs] q by simp
    then have "\<not> sublist sep (c # q)"
      using sublist_sep_Cons[of sep c q cs] nq False "2.prems"(1) by auto
    ultimately show ?thesis by auto
  qed
qed

lemma str_split_no_sep: "\<not> sublist sep s \<Longrightarrow> str_split sep s = [s]"
proof (induction s)
  case Nil
  then show ?case by simp
next
  case (Cons c cs)
  have "\<not> sublist sep cs" using Cons.prems by (simp add: sublist_Cons_right)
  then have "str_split sep cs = [cs]" by (rule Cons.IH)
  moreover have "take (length sep) (c # cs) \<noteq> sep"
  proof
    assume "take (length sep) (c # cs) = sep"
    then have "prefix sep (c # cs)" by (metis take_is_prefix)
    with Cons.prems show False by (simp add: sublist_Cons_right)
  qed
  ultimately show ?case by simp
qed

lemma sublist_strip: "sublist (strip s) s"
proof -
  have "sublist (rev (dropWhile isspace (rev (dropWhile isspace s)))) (dropWhile isspace s)"
    by (simp add: sublist_rev_left)
  moreover have "sublist (dropWhile isspace s) s" by simp
  ultimately show ?thesis unfolding strip_def by (rule sublist_order.order.trans)
qed

lemma strip_idem: "strip (strip s) = strip s"
proof (cases "strip s = []")
  case True
  moreover have "strip [] = []" by (simp add: strip_def)
  ultimately show ?thesis by simp
next
  case False
  define t where "t = dropWhile isspace s"
  define u where "u = dropWhile isspace (rev t)"
  have su: "strip s = rev u" by (simp add: strip_def t_def u_def)
  with False have une: "u \<noteq> []" by simp
  then have hu: "\<not> isspace (hd u)" unfolding u_def by (rule hd_dropWhile)
  have "t \<noteq> []" using une unfolding u_def by auto
  then have ht: "\<not> isspace (hd t)" unfolding t_def by (rule hd_dropWhile)
  have "suffix u (rev t)" unfolding u_def by (rule suffix_dropWhile)
  then obtain v where v: "rev t = v @ u" by (auto simp: suffix_def)
  then have "t = rev u @ rev v" by (metis rev_append rev_rev_ident)
  with une have "hd (rev u) = hd t" by simp
  with ht have "\<not> isspace (hd (rev u))" by simp
  with une have d1: "dropWhile isspace (rev u) = rev u" by (cases "rev u") auto
  from hu une have d2: "dropWhile isspace u = u" by (cases u) auto
  show ?thesis by (simp add: su) (simp add: strip_def d1 d2)
qed

lemma str_split_set: "p \<in> set (str_split sep s) \<Longrightarrow> set p \<subseteq> set s"
proof (induction sep s arbitrary: p rule: str_split.induct)
  case (1 sep)
  then show ?case by simp
next
  case (2 sep c cs)
  show ?case
  proof (cases "sep \<noteq> [] \<and> take (length sep) (c # cs) = sep")
    case True
    with "2.prems" have "p = [] \<or> p \<in> set (str_split sep (drop (length sep) (c # cs)))" by simp
    moreover have "set (drop (length sep) (c # cs)) \<subseteq> set (c # cs)" by (rule set_drop_subset)
    ultimately show ?thesis using "2.IH"(1)[OF True, of p] by auto
  next
    case False
    obtain q qs where q: "str_split sep cs = q # qs"
      using str_split_not_Nil[of sep cs] by (cases "str_split sep cs") auto
    with False "2.prems" have "p = c # q \<or> p \<in> set qs" by (auto split: if_splits)
    moreover have "set q \<subseteq> set cs" "\<And>x. x \<in> set qs \<Longrightarrow> set x \<subseteq> set cs"
      using "2.IH"(2)[OF False] q by simp_all
    ultimately show ?thesis by auto
  qed
qed

lemma clean_whitespace_fragments: "clean_whitespace text = join [0x0A] (fragments text)"
  by (simp add: clean_whitespace_def fragments_def)

lemma fragment_props:
  assumes "f \<in> set (fragments text)"
  shows "f \<noteq> []" "list_all (\<lambda>c. \<not> is_linebreak c) f" "strip f = f"
    "str_split (lit ''  '') f = [f]"
proof -
  from assms obtain l0 p where l0: "l0 \<in> set (splitlines text)"
    and p: "p \<in> set (str_split (lit ''  '') (strip l0))" and f: "f = strip p" and ne: "f \<noteq> []"
    by (auto simp: fragments_def)
  show "f \<noteq> []" by (rule ne)
  have "set f \<subseteq> set p" unfolding f by (rule set_mono_sublist[OF sublist_strip])
  also have "\<dots> \<subseteq> set (strip l0)" by (rule str_split_set[OF p])
  also have "\<dots> \<subseteq> set l0" by (rule set_mono_sublist[OF sublist_strip])
  finally have "set f \<subseteq> set l0" .
  moreover have "list_all (\<lambda>c. \<not> is_linebreak c) l0" by (rule splitlines_no_break[OF l0])
  ultimately show "list_all (\<lambda>c. \<not> is_linebreak c) f" by (auto simp: list_all_iff)
  show "strip f = f" unfolding f by (rule strip_idem)
  have "lit ''  '' \<noteq> []" by (simp add: lit_def)
  then have "\<not> sublist (lit ''  '') p" using p by (rule str_split_piece_no_sep)
  moreover have "sublist f p" unfolding f by (rule sublist_strip)
  ultimately have "\<not> sublist (lit ''  '') f" using sublist_order.order.trans by blast
  then show "str_split (lit ''  '') f = [f]" by (rule str_split_no_sep)
qed

lemma fragments_join:
  assumes "\<And>f. f \<in> set fs \<Longrightarrow> f \<noteq> [] \<and> list_all (\<lambda>c. \<not> is_linebreak c) f \<and> strip f = f
     \<and> str_split (lit ''  '') f = [f]"
  shows "fragments (join [0x0A] fs) = fs"
proof -
  have "splitlines (join [0x0A] fs) = fs"
    using assms by (intro splitlines_join) (simp add: list_all_iff)
  moreover have "map strip fs = fs" using assms by (simp add: map_idI)
  moreover have "concat (map (str_split (lit ''  '')) fs) = fs"
    using assms by (induction fs) simp_all
  moreover have "filter (\<lambda>chunk. chunk \<noteq> []) fs = fs" using assms by (simp add: filter_id_conv)
  ultimately show ?thesis by (simp add: fragments_def)
qed

text \<open>
  C8. The whitespace clean-up is idempotent: cleaning a text that is already the result
  of the clean-up returns it unchanged, for every text.
\<close>

theorem clean_whitespace_idempotent:
  "clean_whitespace (clean_whitespace text) = clean_whitespace text"
proof -
  have "fragments (join [0x0A] (fragments text)) = fragments text"
    by (rule fragments_join) (simp add: fragment_props)
  then show ?thesis by (simp add: clean_whitespace_fragments)
qed

section \<open>Chunk ids\<close>

text \<open>The decimal rendering of an index is injective, so the ids of one batch differ.\<close>

declare str_nat.simps [simp del]

lemma str_nat_not_Nil: "str_nat n \<noteq> []"
  by (subst str_nat.simps) simp

lemma str_nat_inj: "str_nat m = str_nat n \<Longrightarrow> m = n"
proof (induction m arbitrary: n rule: str_nat.induct)
  case (1 m)
  show ?case
  proof (cases "m < 10")
    case True
    show ?thesis
    proof (cases "n < 10")
      case nl: True
      from "1.prems" True nl show ?thesis by (simp add: str_nat.simps[of m] str_nat.simps[of n])
    next
      case False
      from "1.prems" True False str_nat_not_Nil[of "n div 10"] show ?thesis
        by (simp add: str_nat.simps[of m] str_nat.simps[of n])
    qed
  next
    case False
    show ?thesis
    proof (cases "n < 10")
      case True
      from "1.prems" True False str_nat_not_Nil[of "m div 10"] show ?thesis
        by (simp add: str_nat.simps[of m] str_nat.simps[of n])
    next
      case nl: False
      from "1.prems" False nl have "str_nat (m div 10) = str_nat (n div 10)" "m mod 10 = n mod 10"
        by (simp_all add: str_nat.simps[of m] str_nat.simps[of n])
      with "1.IH"[OF False] have "m div 10 = n div 10" "m mod 10 = n mod 10" by simp_all
      then show ?thesis by (metis div_mult_mod_eq)
    qed
  qed
qed

lemma distinct_chunk_ids: "distinct (chunk_ids key chunks)"
  by (auto simp: chunk_ids_def distinct_map inj_on_def dest: str_nat_inj)

lemma length_chunk_ids: "length (chunk_ids key chunks) = length chunks"
  by (simp add: chunk_ids_def)

section \<open>Storing a batch\<close>

text \<open>
  A second \<open>add\<close> of a batch that was stored changes nothing: it stores nothing new, or
  raises. A successful \<open>add\<close> keeps what was stored and appends the records whose ids
  were not.
\<close>

lemma entry_id_records:
  "map entry_id (map (\<lambda>(i, d, m). \<lparr>entry_id = i, document = d, metadata = m\<rparr>) (zip ids (zip ds ms)))
   = map fst (zip ids (zip ds ms))"
  by (simp add: case_prod_beta comp_def)

lemma record_id_in_ids:
  assumes "r \<in> set (map (\<lambda>(i, d, m). \<lparr>entry_id = i, document = d, metadata = m\<rparr>) (zip ids (zip ds ms)))"
  shows "entry_id r \<in> set ids"
proof -
  from assms have "entry_id r \<in> set (map fst (zip ids (zip ds ms)))"
    unfolding entry_id_records[symmetric] by (simp del: map_map)
  then show ?thesis by (auto dest: set_zip_leftD)
qed

lemma collection_add_again:
  assumes "collection_add env ids ds ms coll = Inr c1"
  shows "collection_add env ids ds ms c1 = Inr c1 \<or> (\<exists>e. collection_add env ids ds ms c1 = Inl e)"
proof (cases "chroma_fault env")
  case (Some e)
  then show ?thesis by (simp add: collection_add_def)
next
  case None
  define records where
    "records = map (\<lambda>(i, d, m). \<lparr>entry_id = i, document = d, metadata = m\<rparr>) (zip ids (zip ds ms))"
  have rec_ids: "\<And>r. r \<in> set records \<Longrightarrow> entry_id r \<in> set ids"
    unfolding records_def by (rule record_id_in_ids)
  show ?thesis
  proof (cases "on_existing env")
    case KeepExisting
    with None assms have c1: "c1 = coll @ filter (\<lambda>r. entry_id r \<notin> set (map entry_id coll)) records"
      by (auto simp: collection_add_def records_def Let_def)
    have "filter (\<lambda>r. entry_id r \<notin> set (map entry_id c1)) records = []"
      unfolding c1 by (auto simp: filter_empty_conv)
    with None KeepExisting show ?thesis
      by (simp add: collection_add_def Let_def flip: records_def)
  next
    case RaiseDuplicate
    show ?thesis
    proof (cases "list_ex (\<lambda>i. i \<in> set (map entry_id c1)) ids")
      case True
      with None RaiseDuplicate show ?thesis by (simp add: collection_add_def Let_def)
    next
      case False
      from None RaiseDuplicate assms have c1: "c1 = coll @ records"
        by (auto simp: collection_add_def records_def Let_def split: if_splits)
      have "records = []"
      proof (rule ccontr)
        assume "records \<noteq> []"
        then obtain r where r: "r \<in> set records" by (cases records) auto
        then have "entry_id r \<in> set ids" by (rule rec_ids)
        moreover from r have "entry_id r \<in> set (map entry_id c1)" unfolding c1 by simp
        ultimately show False using False by (auto simp: list_ex_iff)
      qed
      with None RaiseDuplicate False show ?thesis
        by (simp add: collection_add_def Let_def flip: records_def)
    qed
  qed
qed

lemma records_full:
  assumes "length ds = length ids" "length ms = length ids"
  shows "map entry_id (map (\<lambda>(i, d, m). \<lparr>entry_id = i, document = d, metadata = m\<rparr>) (zip ids (zip ds ms))) = ids"
  unfolding entry_id_records using assms by simp

lemma collection_add_result:
  assumes ok: "collection_add env ids ds ms coll = Inr c1"
    and len: "length ds = length ids" "length ms = length ids"
  shows "prefix coll c1"
    and "set (map entry_id c1) = set (map entry_id coll) \<union> set ids"
    and "distinct ids \<Longrightarrow> distinct (map entry_id coll) \<Longrightarrow> distinct (map entry_id c1)"
proof -
  define records where
    "records = map (\<lambda>(i, d, m). \<lparr>entry_id = i, document = d, metadata = m\<rparr>) (zip ids (zip ds ms))"
  have ids: "map entry_id records = ids" unfolding records_def by (rule records_full[OF len])
  define new where "new = filter (\<lambda>r. entry_id r \<notin> set (map entry_id coll)) records"
  have new_ids: "map entry_id new = filter (\<lambda>i. i \<notin> set (map entry_id coll)) ids"
    unfolding new_def ids[symmetric] by (simp add: filter_map comp_def)
  have c1: "c1 = coll @ new"
  proof (cases "on_existing env")
    case KeepExisting
    with ok show ?thesis
      by (auto simp: collection_add_def Let_def new_def records_def split: option.splits)
  next
    case RaiseDuplicate
    with ok have nk: "\<not> list_ex (\<lambda>i. i \<in> set (map entry_id coll)) ids" and c: "c1 = coll @ records"
      by (auto simp: collection_add_def Let_def records_def split: option.splits if_splits)
    from nk have "\<And>r. r \<in> set records \<Longrightarrow> entry_id r \<notin> set (map entry_id coll)"
      using ids by (metis list_ex_iff image_eqI set_map)
    then have "new = records" unfolding new_def by (simp add: filter_id_conv)
    with c show ?thesis by simp
  qed
  show "prefix coll c1" unfolding c1 by simp
  show "set (map entry_id c1) = set (map entry_id coll) \<union> set ids"
    unfolding c1 by (auto simp: new_ids simp del: set_map map_map)
  show "distinct (map entry_id c1)" if "distinct ids" "distinct (map entry_id coll)"
    unfolding c1 using that by (auto simp: new_ids simp del: set_map map_map)
qed

lemma store_chunks_result:
  assumes "store_chunks_in_db env key chunks coll = Inr c1"
  shows "prefix coll c1 \<and> set (map entry_id c1) = set (map entry_id coll) \<union> set (chunk_ids key chunks)
     \<and> (distinct (map entry_id coll) \<longrightarrow> distinct (map entry_id c1))"
proof (cases "chunks = []")
  case True
  with assms show ?thesis by (simp add: store_chunks_in_db_def chunk_ids_def)
next
  case False
  with assms have "collection_add env (chunk_ids key chunks) chunks
      (map (\<lambda>_. [(lit ''source_url'', key)]) chunks) coll = Inr c1"
    by (simp add: store_chunks_in_db_def)
  from collection_add_result[OF this] distinct_chunk_ids[of key chunks]
  show ?thesis by (simp add: length_chunk_ids)
qed

lemma store_file_chunks_result:
  assumes "store_file_chunks_in_db env key chunks coll = Inr c1"
  shows "prefix coll c1 \<and> set (map entry_id c1) = set (map entry_id coll) \<union> set (chunk_ids key chunks)
     \<and> (distinct (map entry_id coll) \<longrightarrow> distinct (map entry_id c1))"
proof (cases "chunks = []")
  case True
  with assms show ?thesis by (simp add: store_file_chunks_in_db_def chunk_ids_def)
next
  case False
  with assms have "collection_add env (chunk_ids key chunks) chunks
      (map (\<lambda>_. [(lit ''source_file'', key)]) chunks) coll = Inr c1"
    by (simp add: store_file_chunks_in_db_def)
  from collection_add_result[OF this] distinct_chunk_ids[of key chunks]
  show ?thesis by (simp add: length_chunk_ids)
qed

section \<open>Running a task again\<close>

lemma job_by_id_set_status:
  "job_by_id jid (set_status jid st js) = map_option (\<lambda>j. j\<lparr>status := st\<rparr>) (job_by_id jid js)"
  by (induction js) (auto simp: job_by_id_def)

lemma job_by_id_commit_status:
  "job_by_id jid (jobs (commit_status jid st s)) = map_option (\<lambda>j. j\<lparr>status := st\<rparr>) (job_by_id jid (jobs s))"
  by (simp add: commit_status_def job_by_id_set_status)

lemma collection_commit_status [simp]: "collection (commit_status jid st s) = collection s"
  by (simp add: commit_status_def)

lemma store_chunks_again:
  assumes "store_chunks_in_db env u chunks coll = Inr c1"
  shows "store_chunks_in_db env u chunks c1 = Inr c1 \<or> (\<exists>e. store_chunks_in_db env u chunks c1 = Inl e)"
  using assms collection_add_again[of env _ chunks _ coll c1]
  by (auto simp: store_chunks_in_db_def split: if_splits)

lemma store_file_chunks_again:
  assumes "store_file_chunks_in_db env u chunks coll = Inr c1"
  shows "store_file_chunks_in_db env u chunks c1 = Inr c1
     \<or> (\<exists>e. store_file_chunks_in_db env u chunks c1 = Inl e)"
  using assms collection_add_again[of env _ chunks _ coll c1]
  by (auto simp: store_file_chunks_in_db_def split: if_splits)

lemma url_steps_again:
  assumes "url_steps env u coll = Inr c1"
  shows "url_steps env u c1 = Inr c1 \<or> (\<exists>e. url_steps env u c1 = Inl e)"
  using assms store_chunks_again[of env u _ coll c1]
  by (auto simp: url_steps_def split: sum.splits if_splits)

lemma file_steps_again:
  assumes "file_steps env p ct key coll = Inr c1"
  shows "file_steps env p ct key c1 = Inr c1 \<or> (\<exists>e. file_steps env p ct key c1 = Inl e)"
  using assms store_file_chunks_again[of env key _ coll c1]
  by (auto simp: file_steps_def split: sum.splits)

lemma process_url_task_again:
  "collection (snd (process_url_task env jid u (snd (process_url_task env jid u s))))
   = collection (snd (process_url_task env jid u s))"
proof (cases "job_by_id jid (jobs s)")
  case None
  then show ?thesis by (simp add: process_url_task_def)
next
  case (Some j)
  show ?thesis
  proof (cases "url_steps env u (collection s)")
    case (Inl e)
    with Some have s': "snd (process_url_task env jid u s)
        = commit_status jid (lit ''FAILED'') (commit_status jid (lit ''PROCESSING'') s)"
      by (simp add: process_url_task_def Let_def job_by_id_commit_status)
    show ?thesis unfolding s'
      using Some Inl by (simp add: process_url_task_def Let_def job_by_id_commit_status)
  next
    case (Inr c1)
    with Some have s': "snd (process_url_task env jid u s)
        = commit_status jid (lit ''COMPLETED'') ((commit_status jid (lit ''PROCESSING'') s)\<lparr>collection := c1\<rparr>)"
      by (simp add: process_url_task_def Let_def)
    have found: "job_by_id jid (jobs (commit_status jid (lit ''COMPLETED'')
        ((commit_status jid (lit ''PROCESSING'') s)\<lparr>collection := c1\<rparr>))) \<noteq> None"
      using Some by (simp add: commit_status_def job_by_id_set_status)
    from url_steps_again[OF Inr] show ?thesis unfolding s'
      using found by (auto simp: process_url_task_def Let_def job_by_id_commit_status)
  qed
qed

lemma process_file_task_again:
  "collection (snd (process_file_task env jid p ct (snd (process_file_task env jid p ct s))))
   = collection (snd (process_file_task env jid p ct s))"
proof (cases "job_by_id jid (jobs s)")
  case None
  then show ?thesis by (simp add: process_file_task_def)
next
  case (Some j)
  show ?thesis
  proof (cases "file_steps env p ct (url j) (collection s)")
    case (Inl e)
    with Some have s': "snd (process_file_task env jid p ct s)
        = commit_status jid (lit ''FAILED'') (commit_status jid (lit ''RUNNING'') s)"
      by (simp add: process_file_task_def Let_def)
    show ?thesis unfolding s'
      using Some Inl by (simp add: process_file_task_def Let_def job_by_id_commit_status)
  next
    case (Inr c1)
    with Some have s': "snd (process_file_task env jid p ct s)
        = commit_status jid (lit ''COMPLETED'') ((commit_status jid (lit ''RUNNING'') s)\<lparr>collection := c1\<rparr>)"
      by (simp add: process_file_task_def Let_def)
    have found: "map_option url (job_by_id jid (jobs (commit_status jid (lit ''COMPLETED'')
        ((commit_status jid (lit ''RUNNING'') s)\<lparr>collection := c1\<rparr>)))) = Some (url j)"
      using Some by (simp add: commit_status_def job_by_id_set_status)
    from file_steps_again[OF Inr] show ?thesis unfolding s'
      using found by (auto simp: process_file_task_def Let_def)
  qed
qed

lemma run_task_again:
  "collection (snd (run_task env t (snd (run_task env t s)))) = collection (snd (run_task env t s))"
  by (cases t) (simp_all add: process_url_task_again process_file_task_again)

section \<open>The scenarios, evaluated\<close>

lemma basename_upload_path: "basename upload_path = lit ''tmpab12cd34.pdf''"
  by (simp add: basename_def upload_path_def lit_def)


lemma uploaded_eq:
  "uploaded (demo_env page pages pol) =
     \<lparr>jobs = [\<lparr>job_id = lit ''1'', url = lit ''tmpab12cd34.pdf'', status = lit ''PENDING''\<rparr>],
      written = [(lit ''1'', lit ''PENDING'')],
      collection = [],
      queue = [ProcessFileTask (lit ''1'') upload_path pdf],
      tmp_files = [(upload_path, lit ''%PDF'')]\<rparr>"
  by (simp add: uploaded_def ingest_file_def ingest_file_try_def basename_upload_path
      job_by_url_def empty_system_def insert_job_def send_task_def demo_env_def pdf_def lit_def)

lemma submitted_eq:
  "submitted (demo_env page pages pol) =
     \<lparr>jobs = [\<lparr>job_id = lit ''1'', url = page_url, status = lit ''PENDING''\<rparr>],
      written = [(lit ''1'', lit ''PENDING'')],
      collection = [],
      queue = [ProcessUrlTask (lit ''1'') page_url],
      tmp_files = []\<rparr>"
  by (simp add: submitted_def ingest_url_def ingest_url_try_def
      job_by_url_def empty_system_def insert_job_def send_task_def demo_env_def)

lemma clean_hello: "clean_whitespace (lit ''Hello  world'') = lit ''Hello'' @ [0x0A] @ lit ''world''"
  by (simp add: clean_whitespace_def lit_def strip_def isspace_def is_linebreak_def)

lemma str_nat_0: "str_nat 0 = lit ''0''"
  by (simp add: str_nat.simps lit_def)

lemma str_nat_409: "str_nat 409 = lit ''409''"
  by (simp add: str_nat.simps lit_def)

lemma clean_old: "clean_whitespace (lit ''old text'') = lit ''old text''"
  by (simp add: clean_whitespace_def lit_def strip_def isspace_def is_linebreak_def)

lemma clean_new: "clean_whitespace (lit ''new text'') = lit ''new text''"
  by (simp add: clean_whitespace_def lit_def strip_def isspace_def is_linebreak_def)

lemma old_run:
  "snd (process_url_task (demo_env (lit ''old text'') (Inr []) pol) (lit ''1'') page_url
        (submitted (demo_env (lit ''old text'') (Inr []) pol)))
   = \<lparr>jobs = [\<lparr>job_id = lit ''1'', url = page_url, status = lit ''COMPLETED''\<rparr>],
      written = [(lit ''1'', lit ''PENDING''), (lit ''1'', lit ''PROCESSING''), (lit ''1'', lit ''COMPLETED'')],
      collection = [\<lparr>entry_id = page_url @ lit ''_0'', document = lit ''old text'',
                      metadata = [(lit ''source_url'', page_url)]\<rparr>],
      queue = [ProcessUrlTask (lit ''1'') page_url],
      tmp_files = []\<rparr>"
  unfolding submitted_eq
  by (cases pol;
      simp add: process_url_task_def url_steps_def fetch_and_clean_text_def clean_old
        chunk_text_def store_chunks_in_db_def collection_add_def chunk_ids_def str_nat_0
        job_by_id_def commit_status_def demo_env_def Let_def;
      simp add: lit_def)

section \<open>Reprocessing and the chunk ids (C2)\<close>

text \<open>
  C2, as stated, ends with: storing a chunk under an id that already exists overwrites
  the existing entry. The code stores with \<open>collection.add\<close>. Here the page at the URL
  reads \<open>old text\<close> when the job runs first and \<open>new text\<close> when it runs again: under
  either behaviour of \<open>add\<close> the entry under the id \<open>{url}_0\<close> still holds \<open>old text\<close>.
\<close>

theorem add_keeps_stored_chunk:
  "map document (collection (snd (process_url_task (demo_env (lit ''new text'') (Inr []) KeepExisting)
       (lit ''1'') page_url
       (snd (process_url_task (demo_env (lit ''old text'') (Inr []) KeepExisting) (lit ''1'') page_url
          (submitted (demo_env (lit ''old text'') (Inr []) KeepExisting)))))))
     = [lit ''old text'']
   \<and> map document (collection (snd (process_url_task (demo_env (lit ''new text'') (Inr []) RaiseDuplicate)
       (lit ''1'') page_url
       (snd (process_url_task (demo_env (lit ''old text'') (Inr []) RaiseDuplicate) (lit ''1'') page_url
          (submitted (demo_env (lit ''old text'') (Inr []) RaiseDuplicate)))))))
     = [lit ''old text'']"
  unfolding old_run
  by (simp add: process_url_task_def url_steps_def fetch_and_clean_text_def clean_new
      chunk_text_def store_chunks_in_db_def collection_add_def chunk_ids_def str_nat_0
      job_by_id_def commit_status_def demo_env_def Let_def)
     (simp add: lit_def)

text \<open>
  C2, amended. Running a task twice for the same job with the same collaborators leaves
  the collection exactly as the first run left it, so the set of chunk ids is the same.
  The ids of a batch are the composites \<open>{source_key}_{i}\<close>, all different; a successful
  store keeps every stored entry as it is, adds ids only from this batch, and makes no
  id occur twice.
\<close>

theorem reprocessing_keeps_store:
  assumes "store_chunks_in_db env key chunks coll = Inr coll1
     \<or> store_file_chunks_in_db env key chunks coll = Inr coll1"
  shows "collection (snd (run_task env t (snd (run_task env t s)))) = collection (snd (run_task env t s))
     \<and> chunk_ids key chunks = map (\<lambda>i. key @ lit ''_'' @ str_nat i) [0..<length chunks]
     \<and> distinct (chunk_ids key chunks)
     \<and> set (map entry_id coll1) = set (map entry_id coll) \<union> set (chunk_ids key chunks)
     \<and> prefix coll coll1
     \<and> (distinct (map entry_id coll) \<longrightarrow> distinct (map entry_id coll1))"
proof -
  from assms have "prefix coll coll1
     \<and> set (map entry_id coll1) = set (map entry_id coll) \<union> set (chunk_ids key chunks)
     \<and> (distinct (map entry_id coll) \<longrightarrow> distinct (map entry_id coll1))"
    using store_chunks_result store_file_chunks_result by blast
  moreover have "chunk_ids key chunks = map (\<lambda>i. key @ lit ''_'' @ str_nat i) [0..<length chunks]"
    by (simp add: chunk_ids_def)
  ultimately show ?thesis
    using run_task_again[of env t s] distinct_chunk_ids[of key chunks] by blast
qed

theorem reprocessing_keeps_store_witness:
  "store_chunks_in_db (demo_env (lit ''old text'') (Inr []) KeepExisting) page_url [lit ''old text''] []
     = Inr [\<lparr>entry_id = page_url @ lit ''_0'', document = lit ''old text'',
             metadata = [(lit ''source_url'', page_url)]\<rparr>]
   \<and> collection (snd (run_task (demo_env (lit ''old text'') (Inr []) KeepExisting)
        (ProcessUrlTask (lit ''1'') page_url)
        (snd (run_task (demo_env (lit ''old text'') (Inr []) KeepExisting)
          (ProcessUrlTask (lit ''1'') page_url)
          (submitted (demo_env (lit ''old text'') (Inr []) KeepExisting))))))
     = collection (snd (run_task (demo_env (lit ''old text'') (Inr []) KeepExisting)
        (ProcessUrlTask (lit ''1'') page_url)
        (submitted (demo_env (lit ''old text'') (Inr []) KeepExisting))))
   \<and> chunk_ids page_url [lit ''old text''] = [page_url @ lit ''_0'']"
proof -
  have st: "store_chunks_in_db (demo_env (lit ''old text'') (Inr []) KeepExisting) page_url [lit ''old text''] []
     = Inr [\<lparr>entry_id = page_url @ lit ''_0'', document = lit ''old text'',
             metadata = [(lit ''source_url'', page_url)]\<rparr>]"
    by (simp add: store_chunks_in_db_def collection_add_def chunk_ids_def str_nat_0 demo_env_def Let_def)
       (simp add: lit_def)
  have ids: "chunk_ids page_url [lit ''old text''] = [page_url @ lit ''_0'']"
    by (simp add: chunk_ids_def str_nat_0) (simp add: lit_def)
  from reprocessing_keeps_store[of "demo_env (lit ''old text'') (Inr []) KeepExisting" page_url
      "[lit ''old text'']" "[]" _ "ProcessUrlTask (lit ''1'') page_url"
      "submitted (demo_env (lit ''old text'') (Inr []) KeepExisting)", OF disjI1, OF st]
  show ?thesis using st ids by simp
qed

section \<open>The worker's failure paths (C1, C3, C4)\<close>

text \<open>
  \<open>process_url_task\<close>: no text from the page is a \<open>ValueError\<close>; an exception of any
  step is recorded as \<open>FAILED\<close> and raised again; the first status written is
  \<open>PROCESSING\<close>. \<open>process_file_task\<close>: the first status written is \<open>RUNNING\<close>, and the
  task returns \<open>None\<close> whatever happens.
\<close>

lemma url_steps_empty_text:
  "fetch_and_clean_text env u = Inr [] \<Longrightarrow>
   url_steps env u coll = Inl (ValueError (lit ''Failed to get any text content from URL.''))"
  by (simp add: url_steps_def)

lemma process_url_task_failure:
  assumes "job_by_id jid (jobs s) = Some j" "url_steps env u (collection s) = Inl e"
  shows "process_url_task env jid u s =
     (Inl e, commit_status jid (lit ''FAILED'') (commit_status jid (lit ''PROCESSING'') s))"
  using assms by (simp add: process_url_task_def Let_def job_by_id_commit_status)

lemma process_url_task_failure_status:
  assumes "job_by_id jid (jobs s) = Some j" "url_steps env u (collection s) = Inl e"
  shows "map_option status (job_by_id jid (jobs (snd (process_url_task env jid u s)))) = Some (lit ''FAILED'')"
  using assms
  by (simp add: process_url_task_failure[OF assms] job_by_id_commit_status option.map_comp comp_def)

lemma process_url_task_success:
  assumes "job_by_id jid (jobs s) = Some j" "url_steps env u (collection s) = Inr coll"
  shows "process_url_task env jid u s =
     (Inr (Some (jid, lit ''COMPLETED'')),
      commit_status jid (lit ''COMPLETED'') ((commit_status jid (lit ''PROCESSING'') s)\<lparr>collection := coll\<rparr>))"
  using assms by (simp add: process_url_task_def Let_def)

lemma process_url_task_writes:
  assumes "job_by_id jid (jobs s) = Some j"
  shows "written (snd (process_url_task env jid u s)) =
     written s @ [(jid, lit ''PROCESSING''),
       (jid, if isl (url_steps env u (collection s)) then lit ''FAILED'' else lit ''COMPLETED'')]"
proof (cases "url_steps env u (collection s)")
  case (Inl e)
  with assms show ?thesis by (simp add: process_url_task_failure commit_status_def)
next
  case (Inr coll)
  with assms show ?thesis by (simp add: process_url_task_success commit_status_def)
qed

lemma process_file_task_writes:
  assumes "job_by_id jid (jobs s) = Some j"
  shows "written (snd (process_file_task env jid p ct s)) =
     written s @ [(jid, lit ''RUNNING''),
       (jid, if isl (file_steps env p ct (url j) (collection s)) then lit ''FAILED'' else lit ''COMPLETED'')]"
  using assms
  by (cases "file_steps env p ct (url j) (collection s)")
     (simp_all add: process_file_task_def Let_def commit_status_def)

lemma process_file_task_returns_None: "fst (process_file_task env jid p ct s) = Inr None"
  by (simp add: process_file_task_def Let_def split: option.splits sum.splits)

lemma task_without_job:
  "job_by_id jid (jobs s) = None \<Longrightarrow> process_url_task env jid u s = (Inr None, s)"
  "job_by_id jid (jobs s) = None \<Longrightarrow> process_file_task env jid p ct s = (Inr None, s)"
  by (simp_all add: process_url_task_def process_file_task_def)

lemma process_url_task_empty_text:
  assumes "job_by_id jid (jobs s) = Some j" "fetch_and_clean_text env u = Inr []"
  shows "process_url_task env jid u s =
     (Inl (ValueError (lit ''Failed to get any text content from URL.'')),
      commit_status jid (lit ''FAILED'') (commit_status jid (lit ''PROCESSING'') s))"
  using assms by (simp add: process_url_task_failure url_steps_empty_text)

lemma process_file_task_empty_text:
  assumes "job_by_id jid (jobs s) = Some j" "fetch_and_clean_file env p ct = Inr []"
    and "split_text env [] = Inr []"
  shows "process_file_task env jid p ct s =
     (Inr None, commit_status jid (lit ''COMPLETED'') (commit_status jid (lit ''RUNNING'') s))"
  using assms
  by (simp add: process_file_task_def file_steps_def chunk_text_def store_file_chunks_in_db_def
      commit_status_def Let_def)

text \<open>
  C1. Extraction that yields empty text is a hard failure: the job ends \<open>FAILED\<close>, never
  \<open>COMPLETED\<close>, in particular for a PDF without extractable text. \<open>process_file_task\<close>
  has no such test: for an uploaded PDF of one page without text the cleaned text is
  empty, nothing is stored, and the job ends \<open>COMPLETED\<close>.
\<close>

theorem empty_pdf_job_completed:
  "fetch_and_clean_file scanned_pdf upload_path pdf = Inr []
   \<and> map status (jobs (snd (process_file_task scanned_pdf (lit ''1'') upload_path pdf (uploaded scanned_pdf))))
       = [lit ''COMPLETED'']"
  unfolding scanned_pdf_def uploaded_eq
  by (simp add: process_file_task_def file_steps_def fetch_and_clean_file_def extract_text_from_pdf_def
      clean_whitespace_def chunk_text_def store_file_chunks_in_db_def job_by_id_def commit_status_def
      demo_env_def pdf_def Let_def)

text \<open>
  C3. When extraction, chunking or storage fails, the worker writes \<open>FAILED\<close> and then
  raises the failure again. \<open>process_file_task\<close> writes \<open>FAILED\<close> but swallows the
  exception: for a PDF that cannot be read the task returns \<open>None\<close>.
\<close>

theorem file_task_swallows_failure:
  "fetch_and_clean_file corrupt_pdf upload_path pdf = Inl (LibraryError (lit ''PdfReadError''))
   \<and> fst (process_file_task corrupt_pdf (lit ''1'') upload_path pdf (uploaded corrupt_pdf)) = Inr None
   \<and> map status (jobs (snd (process_file_task corrupt_pdf (lit ''1'') upload_path pdf (uploaded corrupt_pdf))))
       = [lit ''FAILED'']"
  unfolding corrupt_pdf_def uploaded_eq
  by (simp add: process_file_task_def file_steps_def fetch_and_clean_file_def extract_text_from_pdf_def
      job_by_id_def commit_status_def demo_env_def pdf_def Let_def)

text \<open>
  C4. Every status written is one of \<open>PENDING\<close>, \<open>PROCESSING\<close>, \<open>COMPLETED\<close>, \<open>FAILED\<close>,
  and the first transition of a task is to \<open>PROCESSING\<close>. \<open>process_file_task\<close> first
  writes \<open>RUNNING\<close>, which is none of the four.
\<close>

theorem file_task_writes_running:
  "written (snd (process_file_task text_pdf (lit ''1'') upload_path pdf (uploaded text_pdf)))
     = [(lit ''1'', lit ''PENDING''), (lit ''1'', lit ''RUNNING''), (lit ''1'', lit ''COMPLETED'')]
   \<and> lit ''RUNNING'' \<notin> {lit ''PENDING'', lit ''PROCESSING'', lit ''COMPLETED'', lit ''FAILED''}"
  unfolding text_pdf_def uploaded_eq
  by (simp add: process_file_task_def file_steps_def fetch_and_clean_file_def extract_text_from_pdf_def
      clean_hello chunk_text_def store_file_chunks_in_db_def collection_add_def chunk_ids_def
      job_by_id_def commit_status_def demo_env_def pdf_def Let_def)
     (simp add: lit_def)

section \<open>Submission (C5, C10)\<close>

text \<open>
  A source key that has a row is rejected by both endpoints without a new row or task,
  by \<open>ingest_url\<close> with the 409 and by \<open>ingest_file\<close> with a 500; both endpoints and the
  tasks keep the source keys of the table distinct.
\<close>

lemma job_by_url_None: "job_by_url key rows = None \<longleftrightarrow> key \<notin> url ` set rows"
  by (auto simp: job_by_url_def find_None_iff)


lemma ingest_url_duplicate:
  assumes "job_by_url key (jobs s) = Some j"
  shows "ingest_url env key new_id s =
     (Inl (HTTPException 409
        (lit ''URL has already been submitted. Job ID: '' @ job_id j @ lit '', Status: '' @ status j)), s)"
  using assms by (simp add: ingest_url_def ingest_url_try_def)

lemma ingest_file_duplicate:
  assumes "job_by_url (basename tmp) (jobs s) = Some j" "ct = pdf \<or> ct = docx"
  shows "ingest_file env ct content tmp new_id s =
     (Inl (HTTPException 500
        (lit ''Failed to create and schedule file ingest job: '' @ str_nat 409 @ lit '': ''
         @ lit ''File has already been submitted. Job ID: '' @ job_id j @ lit '', Status: '' @ status j)),
      s\<lparr>tmp_files := tmp_files s @ [(tmp, content)]\<rparr>)"
proof -
  from assms(2) have "\<not> (ct \<noteq> lit ''application/pdf'' \<and>
     ct \<noteq> lit ''application/vnd.openxmlformats-officedocument.wordprocessingml.document'')"
    by (auto simp: pdf_def docx_def)
  with assms(1) show ?thesis
    by (simp add: ingest_file_def ingest_file_try_def Let_def)
qed

lemma jobs_ingest_url:
  "jobs (snd (ingest_url env key new_id s)) =
     (if key \<in> url ` set (jobs s) then jobs s
      else jobs s @ [\<lparr>job_id = new_id, url = key, status = lit ''PENDING''\<rparr>])"
proof (cases "job_by_url key (jobs s)")
  case None
  then have "key \<notin> url ` set (jobs s)" by (simp add: job_by_url_None)
  with None show ?thesis
    by (cases "broker_fault env"; cases "the (broker_fault env)")
       (simp_all add: ingest_url_def ingest_url_try_def insert_job_def send_task_def Let_def)
next
  case (Some j)
  then have "key \<in> url ` set (jobs s)" using job_by_url_None[of key "jobs s"] by auto
  with Some show ?thesis by (simp add: ingest_url_duplicate)
qed

lemma jobs_ingest_file:
  "jobs (snd (ingest_file env ct content tmp new_id s)) =
     (if (ct \<noteq> pdf \<and> ct \<noteq> docx) \<or> basename tmp \<in> url ` set (jobs s) then jobs s
      else jobs s @ [\<lparr>job_id = new_id, url = basename tmp, status = lit ''PENDING''\<rparr>])"
proof (cases "ct \<noteq> pdf \<and> ct \<noteq> docx")
  case True
  then show ?thesis by (simp add: ingest_file_def pdf_def docx_def)
next
  case False
  then have ok: "ct = pdf \<or> ct = docx" by auto
  then have ok': "\<not> (ct \<noteq> lit ''application/pdf'' \<and>
     ct \<noteq> lit ''application/vnd.openxmlformats-officedocument.wordprocessingml.document'')"
    by (auto simp: pdf_def docx_def)
  show ?thesis
  proof (cases "job_by_url (basename tmp) (jobs s)")
    case None
    then have "basename tmp \<notin> url ` set (jobs s)" by (simp add: job_by_url_None)
    with None False ok' show ?thesis
      by (cases "broker_fault env")
         (simp_all add: ingest_file_def ingest_file_try_def insert_job_def send_task_def Let_def)
  next
    case (Some j)
    then have "basename tmp \<in> url ` set (jobs s)" using job_by_url_None[of "basename tmp" "jobs s"] by auto
    with Some ok False show ?thesis by (simp add: ingest_file_duplicate)
  qed
qed

lemma ingest_url_one_row_per_key:
  "distinct (map url (jobs s)) \<Longrightarrow> distinct (map url (jobs (snd (ingest_url env key new_id s))))"
  by (auto simp: jobs_ingest_url)

lemma ingest_file_one_row_per_key:
  "distinct (map url (jobs s)) \<Longrightarrow> distinct (map url (jobs (snd (ingest_file env ct content tmp new_id s))))"
  by (auto simp: jobs_ingest_file)

lemma url_set_status: "map url (set_status jid st js) = map url js"
  by (induction js) auto

lemma run_task_keeps_keys: "map url (jobs (snd (run_task env t s))) = map url (jobs s)"
  by (cases t)
     (auto simp: process_url_task_def process_file_task_def commit_status_def url_set_status Let_def
       split: option.splits sum.splits)

text \<open>
  C5. A submission whose source key already has a row is rejected with a conflict that
  reports the id and status of that row, and changes neither the table nor the queue.
  \<open>ingest_file\<close> raises the 409 inside its \<open>try\<close> block, where \<open>except Exception\<close>
  catches it: the client gets a 500 whose detail quotes the 409. \<open>ingest_url\<close>, for the
  same key and table, answers 409.
\<close>

theorem file_duplicate_reported_as_500:
  "ingest_file text_pdf pdf (lit ''%PDF'') upload_path (lit ''2'') (after_restart text_pdf)
     = (Inl (HTTPException 500
          (lit ''Failed to create and schedule file ingest job: 409: File has already been submitted. Job ID: 1, Status: PENDING'')),
        uploaded text_pdf)
   \<and> ingest_url text_pdf (lit ''tmpab12cd34.pdf'') (lit ''2'') (after_restart text_pdf)
     = (Inl (HTTPException 409
          (lit ''URL has already been submitted. Job ID: 1, Status: PENDING'')),
        after_restart text_pdf)"
  unfolding text_pdf_def after_restart_def uploaded_eq
  by (simp add: ingest_file_def ingest_file_try_def ingest_url_def ingest_url_try_def
      basename_upload_path job_by_url_def pdf_def str_nat_409 Let_def)
     (simp add: lit_def)







text \<open>
  The condition \<open>temp_files_kept\<close> holds of the empty system and is kept by every
  submission of a URL, by every upload whose temporary file lies in the directory, and
  by the tasks.
\<close>

lemma temp_files_kept_empty: "temp_files_kept dir empty_system"
  by (simp add: temp_files_kept_def empty_system_def)

lemma tmp_files_ingest_url: "tmp_files (snd (ingest_url env key new_id s)) = tmp_files s"
proof (cases "job_by_url key (jobs s)")
  case None
  then show ?thesis
    by (cases "broker_fault env"; cases "the (broker_fault env)")
       (simp_all add: ingest_url_def ingest_url_try_def insert_job_def send_task_def Let_def)
next
  case (Some j)
  then show ?thesis by (simp add: ingest_url_duplicate)
qed

lemma tmp_files_ingest_file:
  "tmp_files (snd (ingest_file env ct content tmp new_id s)) =
     (if ct \<noteq> pdf \<and> ct \<noteq> docx then tmp_files s else tmp_files s @ [(tmp, content)])"
proof (cases "ct \<noteq> pdf \<and> ct \<noteq> docx")
  case True
  then show ?thesis by (simp add: ingest_file_def pdf_def docx_def)
next
  case False
  then have ok: "ct = pdf \<or> ct = docx" by auto
  then have ok': "\<not> (ct \<noteq> lit ''application/pdf'' \<and>
     ct \<noteq> lit ''application/vnd.openxmlformats-officedocument.wordprocessingml.document'')"
    by (auto simp: pdf_def docx_def)
  show ?thesis
  proof (cases "job_by_url (basename tmp) (jobs s)")
    case None
    with False ok' show ?thesis
      by (cases "broker_fault env")
         (simp_all add: ingest_file_def ingest_file_try_def insert_job_def send_task_def Let_def)
  next
    case (Some j)
    with ok False show ?thesis by (simp add: ingest_file_duplicate)
  qed
qed

lemma temp_files_kept_ingest_url:
  assumes "temp_files_kept dir s" "0x2F \<in> set key"
  shows "temp_files_kept dir (snd (ingest_url env key new_id s))"
  using assms by (auto simp: temp_files_kept_def tmp_files_ingest_url jobs_ingest_url)

lemma temp_files_kept_ingest_file:
  assumes "temp_files_kept dir s" "in_dir dir tmp"
  shows "temp_files_kept dir (snd (ingest_file env ct content tmp new_id s))"
  using assms
  by (auto simp: temp_files_kept_def tmp_files_ingest_file jobs_ingest_file list_all_iff)

lemma tmp_files_run_task: "tmp_files (snd (run_task env t s)) = tmp_files s"
  by (cases t)
     (auto simp: process_url_task_def process_file_task_def commit_status_def Let_def
       split: option.splits sum.splits)

lemma temp_files_kept_run_task:
  "temp_files_kept dir (snd (run_task env t s)) = temp_files_kept dir s"
proof -
  have "list_all (\<lambda>j. 0x2F \<in> set (url j) \<or> url j \<in> basename ` fst ` set (tmp_files s)) (jobs (snd (run_task env t s)))
      = list_all (\<lambda>k. 0x2F \<in> set k \<or> k \<in> basename ` fst ` set (tmp_files s)) (map url (jobs (snd (run_task env t s))))"
    by (simp add: list_all_iff)
  also have "\<dots> = list_all (\<lambda>k. 0x2F \<in> set k \<or> k \<in> basename ` fst ` set (tmp_files s)) (map url (jobs s))"
    by (simp only: run_task_keeps_keys)
  also have "\<dots> = list_all (\<lambda>j. 0x2F \<in> set (url j) \<or> url j \<in> basename ` fst ` set (tmp_files s)) (jobs s)"
    by (simp add: list_all_iff)
  finally show ?thesis by (simp add: temp_files_kept_def tmp_files_run_task)
qed




section \<open>The query pipeline (C6, C7)\<close>

lemma get_source_url_of_url_chunk: "get_source_url [(lit ''source_url'', u)] = u"
  by (simp add: get_source_url_def)

lemma get_source_url_of_file_chunk: "get_source_url [(lit ''source_file'', f)] = []"
  by (simp add: get_source_url_def lit_def)

lemma query_sources:
  assumes "query_rag_engine env q coll = (Inr r, calls)"
    and "collection_query env (improve_query env q) 3 coll \<noteq> []"
  shows "set (sources r) =
       (\<lambda>e. get_source_url (metadata e)) ` set (collection_query env (improve_query env q) 3 coll)
     \<and> distinct (sources r)"
  using assms
  by (auto simp: query_rag_engine_def Let_def split: sum.splits)

text \<open>
  C6. The sources of an answer are the source keys in the metadata of the retrieved
  chunks, and every stored chunk carries its source key under the key the query reads.
  \<open>query_rag_engine\<close> reads \<open>source_url\<close>; \<open>store_file_chunks_in_db\<close> writes
  \<open>source_file\<close>. For a chunk of an uploaded PDF the sources are the one empty string,
  not the name of the file.
\<close>

theorem file_chunk_sources_empty:
  "map metadata (collection (snd (process_file_task text_pdf (lit ''1'') upload_path pdf (uploaded text_pdf))))
     = [[(lit ''source_file'', lit ''tmpab12cd34.pdf'')]]
   \<and> map_sum id sources (fst (query_rag_engine text_pdf (lit ''What is X?'')
        (collection (snd (process_file_task text_pdf (lit ''1'') upload_path pdf (uploaded text_pdf))))))
     = Inr [[]]"
  unfolding text_pdf_def uploaded_eq
  by (simp add: process_file_task_def file_steps_def fetch_and_clean_file_def extract_text_from_pdf_def
      clean_hello chunk_text_def store_file_chunks_in_db_def collection_add_def chunk_ids_def
      job_by_id_def commit_status_def demo_env_def pdf_def Let_def
      query_rag_engine_def improve_query_def collection_query_def get_source_url_def)
     (simp add: lit_def)

text \<open>
  C7. When the collection returns no match for the improved query, the pipeline returns
  exactly the answer \<open>I could not find an answer in the ingested content.\<close> with no
  sources, and the only chat completion made is the enrichment.
\<close>

theorem no_matches_fixed_answer:
  assumes "collection_query env (improve_query env query_text) 3 coll = []"
  shows "query_rag_engine env query_text coll =
     (Inr \<lparr>answer = lit ''I could not find an answer in the ingested content.'', sources = [],
           enriched_query = improve_query env query_text\<rparr>,
      [EnrichCall (enrich_prompt query_text)])"
  using assms by (simp add: query_rag_engine_def not_found_def Let_def)

theorem no_matches_fixed_answer_witness:
  "collection_query text_pdf (improve_query text_pdf (lit ''What is X?'')) 3 [] = []
   \<and> query_rag_engine text_pdf (lit ''What is X?'') [] =
     (Inr \<lparr>answer = lit ''I could not find an answer in the ingested content.'', sources = [],
           enriched_query = lit ''What is X?''\<rparr>,
      [EnrichCall (enrich_prompt (lit ''What is X?''))])"
proof -
  have q: "collection_query text_pdf (improve_query text_pdf (lit ''What is X?'')) 3 [] = []"
    by (simp add: collection_query_def text_pdf_def demo_env_def)
  have i: "improve_query text_pdf (lit ''What is X?'') = lit ''What is X?''"
    by (simp add: improve_query_def text_pdf_def demo_env_def)
  from no_matches_fixed_answer[OF q] q i show ?thesis by simp
qed

end
